theory Spec2Isabelle
  imports Main
begin

section \<open>The top-level module \<open>mido/__init__.py\<close>\<close>

text \<open>
  The module's namespace (\<open>globals()\<close>) is a dictionary from names to objects. The
  objects that matter here are the imported names, the metadata strings, the list
  \<open>__all__\<close>, the function \<open>set_backend\<close>, a backend object and the attributes read off
  a backend with \<open>getattr\<close>.
\<close>

datatype ('b, 'v) pyval =
    Imported string string
  | StrVal string
  | ListVal "string list"
  | FunctionVal string
  | BackendVal 'b
  | AttrVal 'v

type_synonym ('b, 'v) namespace = "string \<rightharpoonup> ('b, 'v) pyval"

datatype 'e py_error = NameError string | AttributeError string | TypeError | Raised 'e

text \<open>
  The argument \<open>name\<close> of \<open>set_backend\<close>: \<open>None\<close> (the default), a module name, or a
  \<open>Backend\<close> object; \<open>isinstance(name, Backend)\<close> holds for the last only.
\<close>

datatype 'b name_arg = NoneName | StrName string | BackendInst 'b

text \<open>
  The class \<open>Backend\<close> lives in \<open>mido/backends/backend.py\<close>, outside this module. It
  is a parameter of the model: its constructor \<open>Backend(name, load=..., use_environ=...)\<close>,
  \<open>dir(backend)\<close> and \<open>getattr(backend, name)\<close>. Each of the three runs code of the
  class and may raise.
\<close>

record ('b, 'v, 'e) backend_class =
  construct :: "'b name_arg \<Rightarrow> bool \<Rightarrow> bool \<Rightarrow> 'e + 'b"
  dir_of :: "'b \<Rightarrow> 'e + string list"
  getattr_of :: "'b \<Rightarrow> string \<Rightarrow> 'e + 'v"

text \<open>Python's \<open>str.split(sep)\<close> for a one-character separator: never the empty list.\<close>

fun split :: "char \<Rightarrow> string \<Rightarrow> string list" where
  "split c [] = [[]]"
| "split c (x # xs) =
     (if x = c then [] # split c xs
      else (case split c xs of [] \<Rightarrow> [[x]] | w # ws \<Rightarrow> (x # w) # ws))"

text \<open>The test of line 103: \<open>name.split('_')[0] in ['open', 'get']\<close>.\<close>

definition is_port_function :: "string \<Rightarrow> bool" where
  "is_port_function name =
     (case split (CHR ''_'') name of
        [] \<Rightarrow> False
      | first # _ \<Rightarrow> first \<in> set [''open'', ''get''])"

text \<open>
  Lines 96 to 99: the backend \<open>set_backend\<close> selects, the object itself when \<open>name\<close>
  is a \<open>Backend\<close>, else a new \<open>Backend(name, load=load, use_environ=True)\<close>.
\<close>

definition select_backend :: "('b, 'v, 'e) backend_class \<Rightarrow> 'b name_arg \<Rightarrow> bool \<Rightarrow> 'e + 'b" where
  "select_backend cls name load =
     (case name of
        BackendInst b \<Rightarrow> Inr b
      | _ \<Rightarrow> construct cls name load True)"

text \<open>
  \<open>set_backend\<close> writes into \<open>globals()\<close> as it goes, so an exception leaves behind
  what was written before it: the result is the exception raised, if any, and the
  namespace as the call leaves it.
\<close>

type_synonym ('b, 'v, 'e) outcome = "'e py_error option \<times> ('b, 'v) namespace"

text \<open>
  The loop of lines 102 to 104 over the names of \<open>dir(backend)\<close>: it stops at the
  first \<open>getattr\<close> that raises, with the earlier names bound.
\<close>

fun inject :: "('b, 'v, 'e) backend_class \<Rightarrow> 'b \<Rightarrow> string list \<Rightarrow>
    ('b, 'v) namespace \<Rightarrow> ('b, 'v, 'e) outcome" where
  "inject cls backend [] glob = (None, glob)"
| "inject cls backend (name # names) glob =
     (if is_port_function name then
        (case getattr_of cls backend name of
           Inl e \<Rightarrow> (Some (Raised e), glob)
         | Inr v \<Rightarrow> inject cls backend names (glob(name \<mapsto> AttrVal v)))
      else inject cls backend names glob)"

definition set_backend :: "('b, 'v, 'e) backend_class \<Rightarrow> 'b name_arg \<Rightarrow> bool \<Rightarrow>
    ('b, 'v) namespace \<Rightarrow> ('b, 'v, 'e) outcome" where
  "set_backend cls name load glob =
     (case select_backend cls name load of
        Inl e \<Rightarrow> (Some (Raised e), glob)
      | Inr backend \<Rightarrow>
          (case dir_of cls backend of
             Inl e \<Rightarrow> (Some (Raised e), glob(''backend'' \<mapsto> BackendVal backend))
           | Inr names \<Rightarrow>
               inject cls backend names (glob(''backend'' \<mapsto> BackendVal backend))))"

text \<open>\<open>del name\<close> raises NameError when the name is not bound.\<close>

definition del_name :: "string \<Rightarrow> ('b, 'v) namespace \<Rightarrow> 'e py_error + ('b, 'v) namespace" where
  "del_name name glob =
     (case glob name of None \<Rightarrow> Inl (NameError name) | Some _ \<Rightarrow> Inr (glob(name := None)))"

text \<open>
  The names bound by lines 61 to 71, in order. Importing from a submodule also binds
  the submodule in the package's namespace, before the names taken from it.
\<close>

definition import_bindings :: "(string \<times> ('b, 'v) pyval) list" where
  "import_bindings =
     [(''absolute_import'', Imported ''__future__'' ''absolute_import''),
      (''os'', Imported ''os'' ''''),
      (''backends'', Imported ''mido.backends'' ''''),
      (''Backend'', Imported ''mido.backends.backend'' ''Backend''),
      (''ports'', Imported ''mido.ports'' ''''),
      (''sockets'', Imported ''mido.sockets'' ''''),
      (''messages'', Imported ''mido.messages'' ''''),
      (''Message'', Imported ''mido.messages'' ''Message''),
      (''parse_string'', Imported ''mido.messages'' ''parse_string''),
      (''parse_string_stream'', Imported ''mido.messages'' ''parse_string_stream''),
      (''format_as_string'', Imported ''mido.messages'' ''format_as_string''),
      (''frozen'', Imported ''mido.frozen'' ''''),
      (''FrozenMessage'', Imported ''mido.frozen'' ''FrozenMessage''),
      (''FrozenMetaMessage'', Imported ''mido.frozen'' ''FrozenMetaMessage''),
      (''freeze'', Imported ''mido.frozen'' ''freeze''),
      (''parser'', Imported ''mido.parser'' ''''),
      (''Parser'', Imported ''mido.parser'' ''Parser''),
      (''parse'', Imported ''mido.parser'' ''parse''),
      (''parse_all'', Imported ''mido.parser'' ''parse_all''),
      (''midifiles'', Imported ''mido.midifiles'' ''''),
      (''MidiFile'', Imported ''mido.midifiles'' ''MidiFile''),
      (''MidiFileError'', Imported ''mido.midifiles'' ''MidiFileError''),
      (''MidiTrack'', Imported ''mido.midifiles'' ''MidiTrack''),
      (''merge_tracks'', Imported ''mido.midifiles'' ''merge_tracks''),
      (''MetaMessage'', Imported ''mido.midifiles'' ''MetaMessage''),
      (''bpm2tempo'', Imported ''mido.midifiles'' ''bpm2tempo''),
      (''tempo2bpm'', Imported ''mido.midifiles'' ''tempo2bpm''),
      (''syx'', Imported ''mido.syx'' ''''),
      (''read_syx_file'', Imported ''mido.syx'' ''read_syx_file''),
      (''write_syx_file'', Imported ''mido.syx'' ''write_syx_file'')]"

text \<open>Lines 73 to 80: the metadata strings and \<open>__all__ = []\<close>; line 82: the \<open>def\<close>.\<close>

definition assignments :: "(string \<times> ('b, 'v) pyval) list" where
  "assignments =
     [(''__author__'', StrVal ''Ole Martin Bjorndalen''),
      (''__email__'', StrVal ''ombdalen@gmail.com''),
      (''__url__'', StrVal ''https://mido.readthedocs.io/''),
      (''__license__'', StrVal ''MIT''),
      (''__version__'', StrVal ''1.1.18''),
      (''__all__'', ListVal []),
      (''set_backend'', FunctionVal ''set_backend'')]"

definition bind :: "string \<times> ('b, 'v) pyval \<Rightarrow> ('b, 'v) namespace \<Rightarrow> ('b, 'v) namespace" where
  "bind nv glob = glob(fst nv \<mapsto> snd nv)"

text \<open>
  Executing the module body on the namespace \<open>g0\<close> the interpreter starts it with:
  the imports, the assignments, the call \<open>set_backend()\<close> of line 106 with the
  defaults \<open>name=None, load=False\<close>, and \<open>del os, absolute_import\<close> of line 108.
  An exception out of \<open>set_backend\<close> or \<open>del\<close> ends the import.
\<close>

definition module_body :: "('b, 'v, 'e) backend_class \<Rightarrow> ('b, 'v) namespace \<Rightarrow>
    'e py_error + ('b, 'v) namespace" where
  "module_body cls g0 =
     (case set_backend cls NoneName False
             (fold bind assignments (fold bind import_bindings g0)) of
        (Some e, g1) \<Rightarrow> Inl e
      | (None, g1) \<Rightarrow>
          (case del_name ''os'' g1 of
             Inl e \<Rightarrow> Inl e
           | Inr g2 \<Rightarrow> del_name ''absolute_import'' g2))"

text \<open>
  \<open>from mido import *\<close> in a namespace \<open>ns\<close>, for a module with namespace \<open>m\<close>: with
  \<open>__all__\<close> defined, exactly the names it lists are bound, each read off the module
  (AttributeError when the module has no such name); without it, every name of the
  module that does not begin with an underscore.
\<close>

fun import_names :: "('b, 'v) namespace \<Rightarrow> string list \<Rightarrow> ('b, 'v) namespace \<Rightarrow>
    'e py_error + ('b, 'v) namespace" where
  "import_names m [] ns = Inr ns"
| "import_names m (n # names) ns =
     (case m n of
        None \<Rightarrow> Inl (AttributeError n)
      | Some v \<Rightarrow> import_names m names (ns(n \<mapsto> v)))"

definition is_public :: "string \<Rightarrow> bool" where
  "is_public name = (case name of [] \<Rightarrow> True | c # _ \<Rightarrow> c \<noteq> CHR ''_'')"

definition star_import :: "('b, 'v) namespace \<Rightarrow> ('b, 'v) namespace \<Rightarrow>
    'e py_error + ('b, 'v) namespace" where
  "star_import m ns =
     (case m ''__all__'' of
        Some (ListVal names) \<Rightarrow> import_names m names ns
      | Some _ \<Rightarrow> Inl TypeError
      | None \<Rightarrow>
          Inr (\<lambda>n. if is_public n then (case m n of Some v \<Rightarrow> Some v | None \<Rightarrow> ns n)
                    else ns n))"

text \<open>
  Two backend classes for the concrete instances below. In both, backends are
  numbered and the constructor succeeds. In the first, every attribute can be read
  and its value is its own name; in the second, reading \<open>open_input\<close> raises.
\<close>

definition sample_class :: "(nat, string, unit) backend_class" where
  "sample_class =
     \<lparr>construct = (\<lambda>name load use_environ. Inr 0),
      dir_of = (\<lambda>b. Inr [''__init__'', ''_get_devices'', ''get_input_names'', ''load'',
                          ''name'', ''open_input'']),
      getattr_of = (\<lambda>b name. Inr name)\<rparr>"

definition raising_class :: "(nat, string, unit) backend_class" where
  "raising_class =
     \<lparr>construct = (\<lambda>name load use_environ. Inr 0),
      dir_of = (\<lambda>b. Inr [''__init__'', ''_get_devices'', ''get_input_names'', ''load'',
                          ''name'', ''open_input'']),
      getattr_of = (\<lambda>b name. if name = ''open_input'' then Inl () else Inr name)\<rparr>"

section \<open>The byte-stream parser\<close>

text \<open>
  Modelled from the spec: the message model and the parser of \<open>mido/messages.py\<close> and
  \<open>mido/parser.py\<close>, which \<open>__init__.py\<close> only imports. The spec fixes the closed set
  of message types, \<open>0x90\<close> as the status byte of \<open>note_on\<close> on channel 0 with the
  arguments note and velocity, the sysex frame \<open>0xF0 ... 0xF7\<close>, the real-time range
  \<open>0xF8\<close> to \<open>0xFE\<close> with \<open>clock\<close> first, and \<open>0xFF\<close> as system reset; for the other
  status bytes it refers to the MIDI specification, whose table is used here. Every
  message the parser emits carries the default \<open>time\<close> 0, which is not on the wire and
  is left out.
\<close>

datatype message =
    NoteOff nat nat nat
  | NoteOn nat nat nat
  | Polytouch nat nat nat
  | ControlChange nat nat nat
  | ProgramChange nat nat
  | Aftertouch nat nat
  | Pitchwheel nat int
  | Sysex "nat list"
  | QuarterFrame nat nat
  | Songpos nat
  | SongSelect nat
  | TuneRequest
  | Clock
  | Start
  | Continue
  | Stop
  | ActiveSensing
  | Reset

text \<open>
  Modelled from the spec: the number of data bytes a status byte declares (0, 1 or 2);
  \<open>None\<close> for a reserved status byte and for the sysex frame bytes, which carry no
  fixed count.
\<close>

definition data_length :: "nat \<Rightarrow> nat option" where
  "data_length status =
     (if 0x80 \<le> status \<and> status \<le> 0xBF then Some 2
      else if 0xC0 \<le> status \<and> status \<le> 0xDF then Some 1
      else if 0xE0 \<le> status \<and> status \<le> 0xEF then Some 2
      else if status = 0xF1 then Some 1
      else if status = 0xF2 then Some 2
      else if status = 0xF3 then Some 1
      else if status = 0xF6 then Some 0
      else if status = 0xF8 \<or> status = 0xFA \<or> status = 0xFB \<or> status = 0xFC
              \<or> status = 0xFE \<or> status = 0xFF then Some 0
      else None)"

text \<open>
  Modelled from the spec: \<open>decode_from(bytes)\<close>, the message of one complete byte
  sequence, status byte first (the channel is the status byte's low four bits).
\<close>

fun decode_from :: "nat list \<Rightarrow> message option" where
  "decode_from [status] =
     (if status = 0xF6 then Some TuneRequest
      else if status = 0xF8 then Some Clock
      else if status = 0xFA then Some Start
      else if status = 0xFB then Some Continue
      else if status = 0xFC then Some Stop
      else if status = 0xFE then Some ActiveSensing
      else if status = 0xFF then Some Reset
      else None)"
| "decode_from [status, a] =
     (if 0xC0 \<le> status \<and> status \<le> 0xCF then Some (ProgramChange (status mod 16) a)
      else if 0xD0 \<le> status \<and> status \<le> 0xDF then Some (Aftertouch (status mod 16) a)
      else if status = 0xF1 then Some (QuarterFrame (a div 16) (a mod 16))
      else if status = 0xF3 then Some (SongSelect a)
      else None)"
| "decode_from [status, a, b] =
     (if 0x80 \<le> status \<and> status \<le> 0x8F then Some (NoteOff (status mod 16) a b)
      else if 0x90 \<le> status \<and> status \<le> 0x9F then Some (NoteOn (status mod 16) a b)
      else if 0xA0 \<le> status \<and> status \<le> 0xAF then Some (Polytouch (status mod 16) a b)
      else if 0xB0 \<le> status \<and> status \<le> 0xBF then Some (ControlChange (status mod 16) a b)
      else if 0xE0 \<le> status \<and> status \<le> 0xEF
        then Some (Pitchwheel (status mod 16) (int (a + 128 * b) - 8192))
      else if status = 0xF2 then Some (Songpos (a + 128 * b))
      else None)"
| "decode_from _ = None"

text \<open>
  Modelled from the spec: the ParserState, with the pending-message buffer, the
  running status, the sysex accumulation (\<open>None\<close> outside a sysex) and the output
  queue of completed messages.
\<close>

record parser_state =
  buffer :: "nat list"
  running_status :: "nat option"
  sysex :: "nat list option"
  queue :: "message list"

definition new_parser :: parser_state where
  "new_parser = \<lparr>buffer = [], running_status = None, sysex = None, queue = []\<rparr>"

definition deliver :: "nat list \<Rightarrow> parser_state \<Rightarrow> parser_state" where
  "deliver bytes s =
     (case decode_from bytes of None \<Rightarrow> s | Some m \<Rightarrow> s\<lparr>queue := queue s @ [m]\<rparr>)"

text \<open>CollectingArgs: emit once the declared number of data bytes is there.\<close>

definition collect :: "parser_state \<Rightarrow> parser_state" where
  "collect s =
     (case buffer s of
        [] \<Rightarrow> s
      | status # args \<Rightarrow>
          (if data_length status = Some (length args)
           then deliver (buffer s) (s\<lparr>buffer := []\<rparr>) else s))"

text \<open>A sysex in progress ends, and is emitted, at any status byte that is not real-time.\<close>

definition end_sysex :: "parser_state \<Rightarrow> parser_state" where
  "end_sysex s =
     (case sysex s of
        None \<Rightarrow> s
      | Some d \<Rightarrow> s\<lparr>sysex := None, queue := queue s @ [Sysex d]\<rparr>)"

text \<open>
  Modelled from the spec: \<open>feed_byte\<close>, one step of the state machine of section 4.3.
  A data byte goes to the sysex in progress, else to the pending message, else starts
  a message under the running status, else is discarded. A real-time byte is emitted
  at once and changes nothing else; \<open>0xFF\<close> clears the state. A channel status byte
  sets the running status, a system common byte clears it, and a reserved one is
  discarded.
\<close>

definition feed_byte :: "nat \<Rightarrow> parser_state \<Rightarrow> parser_state" where
  "feed_byte b s =
     (if b < 0x80 then
        (case sysex s of
           Some d \<Rightarrow> s\<lparr>sysex := Some (d @ [b])\<rparr>
         | None \<Rightarrow>
             (case buffer s of
                [] \<Rightarrow>
                  (case running_status s of
                     None \<Rightarrow> s
                   | Some status \<Rightarrow> collect (s\<lparr>buffer := [status, b]\<rparr>))
              | _ \<Rightarrow> collect (s\<lparr>buffer := buffer s @ [b]\<rparr>)))
      else if 0xF8 \<le> b \<and> b \<le> 0xFE then deliver [b] s
      else if b = 0xFF then
        deliver [b] (s\<lparr>buffer := [], running_status := None, sysex := None\<rparr>)
      else if b \<le> 0xEF then
        collect ((end_sysex s)\<lparr>buffer := [b], running_status := Some b\<rparr>)
      else if b = 0xF0 then (end_sysex s)\<lparr>buffer := [], sysex := Some []\<rparr>
      else if b = 0xF7 then (end_sysex s)\<lparr>buffer := [], running_status := None\<rparr>
      else if b \<le> 0xF6 then
        (case data_length b of
           None \<Rightarrow> (end_sysex s)\<lparr>running_status := None\<rparr>
         | Some n \<Rightarrow> collect ((end_sysex s)\<lparr>buffer := [b], running_status := None\<rparr>))
      else s)"

definition feed :: "nat list \<Rightarrow> parser_state \<Rightarrow> parser_state" where
  "feed bytes s = fold feed_byte bytes s"

definition parse_all :: "nat list \<Rightarrow> message list" where
  "parse_all bytes = queue (feed bytes new_parser)"

section \<open>Variable-length quantities\<close>

text \<open>
  Modelled from the spec: the delta-time codec of \<open>mido/midifiles\<close>, which
  \<open>__init__.py\<close> only imports. Each byte carries seven bits, most significant group
  first; the high bit says that more bytes follow. The encoder emits no leading zero
  group. The decoder counts the continuation bytes and fails at the fifth.
\<close>

function continuation :: "nat \<Rightarrow> nat list" where
  "continuation n =
     (if n < 128 then [n + 128] else continuation (n div 128) @ [n mod 128 + 128])"
  by pat_completeness auto
termination
  by (relation "measure id") auto

declare continuation.simps [simp del]

definition encode_vlq :: "nat \<Rightarrow> nat list" where
  "encode_vlq n = (if n < 128 then [n] else continuation (n div 128) @ [n mod 128])"

datatype vlq_error = Truncated | TooLong

fun read_vlq :: "nat \<Rightarrow> nat \<Rightarrow> nat list \<Rightarrow> vlq_error + nat \<times> nat list" where
  "read_vlq acc seen [] = Inl Truncated"
| "read_vlq acc seen (b # bytes) =
     (if 128 \<le> b then
        (if 4 \<le> seen then Inl TooLong
         else read_vlq (acc * 128 + b mod 128) (Suc seen) bytes)
      else Inr (acc * 128 + b, bytes))"

definition decode_vlq :: "nat list \<Rightarrow> vlq_error + nat \<times> nat list" where
  "decode_vlq bytes = read_vlq 0 0 bytes"

section \<open>Properties of the module\<close>

lemma not_port_backend: "\<not> is_port_function ''backend''"
  by (simp add: is_port_function_def)

lemma not_port_os: "\<not> is_port_function ''os''"
  by (simp add: is_port_function_def)

lemma not_port_absolute_import: "\<not> is_port_function ''absolute_import''"
  by (simp add: is_port_function_def)

lemma inject_frame:
  "inject cls b names glob = (r, g') \<Longrightarrow> \<not> (n \<in> set names \<and> is_port_function n) \<Longrightarrow>
   g' n = glob n"
  by (induction names arbitrary: glob) (auto split: if_splits sum.splits)

lemma inject_bound:
  "inject cls b names glob = (None, g') \<Longrightarrow> n \<in> set names \<Longrightarrow> is_port_function n \<Longrightarrow>
   \<exists>v. getattr_of cls b n = Inr v \<and> g' n = Some (AttrVal v)"
proof (induction names arbitrary: glob)
  case Nil
  then show ?case by simp
next
  case (Cons x xs)
  show ?case
  proof (cases "is_port_function x")
    case False
    with Cons.prems have "inject cls b xs glob = (None, g')" and "n \<in> set xs"
      by auto
    then show ?thesis using Cons.IH Cons.prems(3) by blast
  next
    case True
    with Cons.prems(1) obtain v where v: "getattr_of cls b x = Inr v"
      and rest: "inject cls b xs (glob(x \<mapsto> AttrVal v)) = (None, g')"
      by (auto split: sum.splits)
    show ?thesis
    proof (cases "n \<in> set xs")
      case True
      from Cons.IH [OF rest True Cons.prems(3)] show ?thesis .
    next
      case False
      with Cons.prems(2) have nx: "n = x" by simp
      from inject_frame [OF rest, of n] False have "g' n = (glob(x \<mapsto> AttrVal v)) n"
        by simp
      with nx v show ?thesis by simp
    qed
  qed
qed

lemma inject_total:
  "\<forall>n\<in>set names. is_port_function n \<longrightarrow> (\<exists>v. getattr_of cls b n = Inr v) \<Longrightarrow>
   \<exists>g'. inject cls b names glob = (None, g')"
  by (induction names arbitrary: glob) auto

lemma inject_construct:
  "inject (cls\<lparr>construct := c\<rparr>) b names glob = inject cls b names glob"
  by (induction names arbitrary: glob) (auto split: sum.splits)

lemma set_backend_returns:
  "set_backend cls name load glob = (None, g') \<Longrightarrow>
   \<exists>b names. select_backend cls name load = Inr b \<and> dir_of cls b = Inr names \<and>
     inject cls b names (glob(''backend'' \<mapsto> BackendVal b)) = (None, g')"
  by (auto simp: set_backend_def split: sum.splits)

lemma set_backend_selected:
  "select_backend cls name load = Inr b \<Longrightarrow> dir_of cls b = Inr names \<Longrightarrow>
   set_backend cls name load glob = inject cls b names (glob(''backend'' \<mapsto> BackendVal b))"
  by (simp add: set_backend_def)

lemma before_call_os: "\<exists>v. fold bind assignments (fold bind import_bindings g0) ''os'' = Some v"
  by (simp add: assignments_def import_bindings_def bind_def)

lemma before_call_ai: "\<exists>v. fold bind assignments (fold bind import_bindings g0) ''absolute_import'' = Some v"
  by (simp add: assignments_def import_bindings_def bind_def)

lemma before_call_all: "fold bind assignments (fold bind import_bindings g0) ''__all__'' = Some (ListVal [])"
  by (simp add: assignments_def import_bindings_def bind_def)

lemma module_body_Inr:
  assumes "set_backend cls NoneName False
             (fold bind assignments (fold bind import_bindings g0)) = (None, g1)"
  shows "module_body cls g0 = Inr (g1(''os'' := None, ''absolute_import'' := None))"
proof -
  let ?g4 = "fold bind assignments (fold bind import_bindings g0)"
  from set_backend_returns [OF assms] obtain b names where
    i: "inject cls b names (?g4(''backend'' \<mapsto> BackendVal b)) = (None, g1)"
    by blast
  obtain v where "?g4 ''os'' = Some v" using before_call_os by blast
  with inject_frame [OF i, of "''os''"] have os: "g1 ''os'' = Some v"
    by (simp add: not_port_os)
  obtain w where "?g4 ''absolute_import'' = Some w" using before_call_ai by blast
  with inject_frame [OF i, of "''absolute_import''"] have ai: "g1 ''absolute_import'' = Some w"
    by (simp add: not_port_absolute_import)
  show ?thesis
    unfolding module_body_def assms
    using os ai by (simp add: del_name_def)
qed

lemma module_body_result:
  assumes "module_body cls g0 = Inr g"
  shows "\<exists>g1. set_backend cls NoneName False
             (fold bind assignments (fold bind import_bindings g0)) = (None, g1) \<and>
           g = g1(''os'' := None, ''absolute_import'' := None)"
proof -
  let ?g4 = "fold bind assignments (fold bind import_bindings g0)"
  obtain r g1 where s: "set_backend cls NoneName False ?g4 = (r, g1)"
    by (cases "set_backend cls NoneName False ?g4") blast
  show ?thesis
  proof (cases r)
    case None
    with s have s': "set_backend cls NoneName False ?g4 = (None, g1)" by simp
    from module_body_Inr [OF s'] assms s' show ?thesis by simp
  next
    case (Some e)
    with s assms show ?thesis by (simp add: module_body_def)
  qed
qed

text \<open>
  Claim C8, as amended. \<open>set_backend\<close> does write into the module's namespace: when it
  returns, \<open>backend\<close> is bound to the backend it selected (the object passed, or the
  one the constructor returned), every name of \<open>dir(backend)\<close> whose first token before
  an underscore is \<open>open\<close> or \<open>get\<close> is bound to what \<open>getattr\<close> returned for it, and
  every other name of the namespace is as it was before the call.
\<close>

theorem set_backend_frame:
  assumes "set_backend cls name load glob = (None, glob')"
  shows "\<exists>b names. select_backend cls name load = Inr b \<and>
             dir_of cls b = Inr names \<and>
             glob' ''backend'' = Some (BackendVal b) \<and>
             (\<forall>n\<in>set names. is_port_function n \<longrightarrow>
                  (\<exists>v. getattr_of cls b n = Inr v \<and> glob' n = Some (AttrVal v))) \<and>
             (\<forall>n. n \<noteq> ''backend'' \<and> \<not> (n \<in> set names \<and> is_port_function n) \<longrightarrow>
                  glob' n = glob n)"
proof -
  from set_backend_returns [OF assms] obtain b names where
    sel: "select_backend cls name load = Inr b" and
    dir: "dir_of cls b = Inr names" and
    i: "inject cls b names (glob(''backend'' \<mapsto> BackendVal b)) = (None, glob')"
    by blast
  from inject_frame [OF i, of "''backend''"] have bk: "glob' ''backend'' = Some (BackendVal b)"
    by (simp add: not_port_backend)
  have bound: "\<forall>n\<in>set names. is_port_function n \<longrightarrow>
      (\<exists>v. getattr_of cls b n = Inr v \<and> glob' n = Some (AttrVal v))"
    using inject_bound [OF i] by blast
  have frame: "\<forall>n. n \<noteq> ''backend'' \<and> \<not> (n \<in> set names \<and> is_port_function n) \<longrightarrow>
      glob' n = glob n"
    using inject_frame [OF i] by auto
  from sel dir bk bound frame show ?thesis by blast
qed

lemma sample_port: "is_port_function ''open_input''" "is_port_function ''get_input_names''"
  "\<not> is_port_function ''_get_devices''" "\<not> is_port_function ''load''" "\<not> is_port_function ''name''"
  "\<not> is_port_function ''__init__''"
  by (simp_all add: is_port_function_def)

text \<open>
  Claim C8 as stated fails: in the module's namespace as it stands before line 106,
  \<open>open_input\<close> is not bound; after \<open>set_backend()\<close> has returned on a backend that
  has the attribute \<open>open_input\<close>, it is: a module global other than \<open>backend\<close> has
  changed.
\<close>

theorem set_backend_injects_counterexample:
  "(fold bind assignments (fold bind import_bindings Map.empty) :: (nat, string) namespace)
      ''open_input'' = None \<and>
   fst (set_backend sample_class NoneName False
          (fold bind assignments (fold bind import_bindings Map.empty))) = None \<and>
   snd (set_backend sample_class NoneName False
          (fold bind assignments (fold bind import_bindings Map.empty)))
      ''open_input'' = Some (AttrVal ''open_input'')"
  by (simp add: set_backend_def select_backend_def sample_class_def is_port_function_def
      assignments_def import_bindings_def bind_def)

lemma sample_returns:
  "\<exists>g. set_backend sample_class NoneName False glob = (None, g)"
  by (simp add: set_backend_def select_backend_def sample_class_def sample_port)

text \<open>The amended claim C8 at the first sample class.\<close>

theorem set_backend_frame_witness:
  "\<exists>g. set_backend sample_class NoneName False
            (fold bind assignments (fold bind import_bindings Map.empty)) = (None, g) \<and>
         g ''backend'' = Some (BackendVal 0) \<and>
         g ''open_input'' = Some (AttrVal ''open_input'') \<and>
         g ''Message'' = Some (Imported ''mido.messages'' ''Message'') \<and>
         g ''load'' = None"
proof -
  let ?g0 = "fold bind assignments (fold bind import_bindings Map.empty) :: (nat, string) namespace"
  from sample_returns obtain g where h: "set_backend sample_class NoneName False ?g0 = (None, g)"
    by blast
  from set_backend_frame [OF h] obtain b names where
    sel: "select_backend sample_class NoneName False = Inr b" and
    dir: "dir_of sample_class b = Inr names" and
    bk: "g ''backend'' = Some (BackendVal b)" and
    inj: "\<forall>n\<in>set names. is_port_function n \<longrightarrow>
            (\<exists>v. getattr_of sample_class b n = Inr v \<and> g n = Some (AttrVal v))" and
    fr: "\<forall>n. n \<noteq> ''backend'' \<and> \<not> (n \<in> set names \<and> is_port_function n) \<longrightarrow> g n = ?g0 n"
    by blast
  from sel have b0: "b = 0" by (simp add: select_backend_def sample_class_def)
  from dir have names: "names = [''__init__'', ''_get_devices'', ''get_input_names'', ''load'',
      ''name'', ''open_input'']"
    by (simp add: sample_class_def)
  from inj have "\<exists>v. getattr_of sample_class b ''open_input'' = Inr v \<and>
      g ''open_input'' = Some (AttrVal v)"
    by (simp add: names sample_port)
  then have 1: "g ''open_input'' = Some (AttrVal ''open_input'')"
    by (auto simp: sample_class_def)
  have "g ''Message'' = ?g0 ''Message''"
    using fr by (simp add: names)
  then have 2: "g ''Message'' = Some (Imported ''mido.messages'' ''Message'')"
    by (simp add: assignments_def import_bindings_def bind_def)
  have "g ''load'' = ?g0 ''load''"
    using fr sample_port by simp
  then have 3: "g ''load'' = None"
    by (simp add: assignments_def import_bindings_def bind_def)
  from h bk b0 1 2 3 show ?thesis by blast
qed

lemma not_port_entry:
  "\<not> is_port_function ''__all__''" "\<not> is_port_function ''Message''"
  "\<not> is_port_function ''Parser''" "\<not> is_port_function ''parse''"
  "\<not> is_port_function ''MidiFile''"
  by (simp_all add: is_port_function_def)

lemma before_call_entry:
  "fold bind assignments (fold bind import_bindings g0) ''Message'' =
     Some (Imported ''mido.messages'' ''Message'')"
  "fold bind assignments (fold bind import_bindings g0) ''Parser'' =
     Some (Imported ''mido.parser'' ''Parser'')"
  "fold bind assignments (fold bind import_bindings g0) ''parse'' =
     Some (Imported ''mido.parser'' ''parse'')"
  "fold bind assignments (fold bind import_bindings g0) ''MidiFile'' =
     Some (Imported ''mido.midifiles'' ''MidiFile'')"
  by (simp_all add: assignments_def import_bindings_def bind_def)

lemma module_body_untouched:
  assumes "module_body cls g0 = Inr g" "\<not> is_port_function n" "n \<noteq> ''backend''"
    "n \<noteq> ''os''" "n \<noteq> ''absolute_import''"
  shows "g n = fold bind assignments (fold bind import_bindings g0) n"
proof -
  let ?g4 = "fold bind assignments (fold bind import_bindings g0)"
  from module_body_result [OF assms(1)] obtain g1 where
    s: "set_backend cls NoneName False ?g4 = (None, g1)" and
    g: "g = g1(''os'' := None, ''absolute_import'' := None)"
    by blast
  from set_backend_returns [OF s] obtain b names where
    i: "inject cls b names (?g4(''backend'' \<mapsto> BackendVal b)) = (None, g1)"
    by blast
  from inject_frame [OF i, of n] assms(2,3) have "g1 n = ?g4 n" by simp
  with g assms(4,5) show ?thesis by simp
qed

text \<open>
  Claim C9. Once the module body has run, \<open>__all__\<close> is the empty list, so
  \<open>from mido import *\<close> leaves the importing namespace as it was, whatever it held;
  \<open>Message\<close>, \<open>Parser\<close>, \<open>parse\<close> and \<open>MidiFile\<close> are bound in the module's own
  namespace, where attribute access finds them.
\<close>

theorem star_import_binds_nothing:
  assumes "module_body cls g0 = Inr g"
  shows "g ''__all__'' = Some (ListVal []) \<and>
         star_import g ns = Inr ns \<and>
         g ''Message'' = Some (Imported ''mido.messages'' ''Message'') \<and>
         g ''Parser'' = Some (Imported ''mido.parser'' ''Parser'') \<and>
         g ''parse'' = Some (Imported ''mido.parser'' ''parse'') \<and>
         g ''MidiFile'' = Some (Imported ''mido.midifiles'' ''MidiFile'')"
proof -
  have a: "g ''__all__'' = Some (ListVal [])"
    using module_body_untouched [OF assms, of "''__all__''"]
    by (simp add: not_port_entry before_call_all)
  then have s: "star_import g ns = Inr ns"
    by (simp add: star_import_def)
  have m: "g ''Message'' = Some (Imported ''mido.messages'' ''Message'')"
    using module_body_untouched [OF assms, of "''Message''"]
    by (simp add: not_port_entry before_call_entry)
  have p: "g ''Parser'' = Some (Imported ''mido.parser'' ''Parser'')"
    using module_body_untouched [OF assms, of "''Parser''"]
    by (simp add: not_port_entry before_call_entry)
  have q: "g ''parse'' = Some (Imported ''mido.parser'' ''parse'')"
    using module_body_untouched [OF assms, of "''parse''"]
    by (simp add: not_port_entry before_call_entry)
  have f: "g ''MidiFile'' = Some (Imported ''mido.midifiles'' ''MidiFile'')"
    using module_body_untouched [OF assms, of "''MidiFile''"]
    by (simp add: not_port_entry before_call_entry)
  from a s m p q f show ?thesis by blast
qed

text \<open>Claim C9 at the first sample class, importing into a namespace that binds \<open>x\<close>.\<close>

theorem star_import_binds_nothing_witness:
  "\<exists>g. module_body sample_class Map.empty = Inr g \<and>
       g ''__all__'' = Some (ListVal []) \<and>
       (star_import g (Map.empty(''x'' \<mapsto> StrVal ''y'')) :: unit py_error + (nat, string) namespace)
          = Inr (Map.empty(''x'' \<mapsto> StrVal ''y'')) \<and>
       g ''Message'' = Some (Imported ''mido.messages'' ''Message'')"
proof -
  from sample_returns obtain g1 where
    "set_backend sample_class NoneName False
       (fold bind assignments (fold bind import_bindings Map.empty)) = (None, g1)"
    by blast
  from module_body_Inr [OF this] obtain g where
    h: "module_body sample_class Map.empty = Inr g" by blast
  from star_import_binds_nothing [OF h, of "Map.empty(''x'' \<mapsto> StrVal ''y'')"] h
  show ?thesis by blast
qed

lemma set_backend_succeeds:
  assumes sel: "select_backend cls name load = Inr b"
    and dir: "dir_of cls b = Inr names"
    and attrs: "\<forall>n\<in>set names. is_port_function n \<longrightarrow> (\<exists>v. getattr_of cls b n = Inr v)"
  shows "\<exists>g. set_backend cls name load glob = (None, g) \<and>
             g ''backend'' = Some (BackendVal b) \<and>
             (\<forall>n\<in>set names. is_port_function n \<longrightarrow>
                 (\<exists>v. getattr_of cls b n = Inr v \<and> g n = Some (AttrVal v)))"
proof -
  from inject_total [OF attrs] obtain g where
    i: "inject cls b names (glob(''backend'' \<mapsto> BackendVal b)) = (None, g)"
    by blast
  with set_backend_selected [OF sel dir, of glob] have s: "set_backend cls name load glob = (None, g)"
    by simp
  from inject_frame [OF i, of "''backend''"] have "g ''backend'' = Some (BackendVal b)"
    by (simp add: not_port_backend)
  moreover have "\<forall>n\<in>set names. is_port_function n \<longrightarrow>
      (\<exists>v. getattr_of cls b n = Inr v \<and> g n = Some (AttrVal v))"
    using inject_bound [OF i] by blast
  ultimately show ?thesis using s by blast
qed

lemma set_backend_construct:
  "set_backend (cls\<lparr>construct := c\<rparr>) (BackendInst b) load glob =
   set_backend cls (BackendInst b) load glob"
  by (simp add: set_backend_def select_backend_def inject_construct split: sum.splits)

lemma set_backend_keeps_backend:
  assumes "select_backend cls name load = Inr b"
  shows "snd (set_backend cls name load glob) ''backend'' = Some (BackendVal b)"
proof (cases "dir_of cls b")
  case (Inl e)
  with assms show ?thesis by (simp add: set_backend_def)
next
  case (Inr names)
  obtain r g where i: "inject cls b names (glob(''backend'' \<mapsto> BackendVal b)) = (r, g)"
    by (cases "inject cls b names (glob(''backend'' \<mapsto> BackendVal b))") blast
  from inject_frame [OF i, of "''backend''"] have "g ''backend'' = Some (BackendVal b)"
    by (simp add: not_port_backend)
  with set_backend_selected [OF assms Inr, of glob] i show ?thesis by simp
qed

text \<open>
  Claim C10, for a backend whose \<open>dir\<close> returns and whose \<open>open\<close> and \<open>get\<close> attributes
  can be read. Given a \<open>Backend\<close> object, \<open>set_backend\<close> returns with that very object
  bound to \<open>backend\<close>, and the result does not depend on the constructor (none is
  called). Given anything else, it binds the object \<open>Backend(name, load=load,
  use_environ=True)\<close> returns; when the constructor raises, so does \<open>set_backend\<close>, and
  the namespace is untouched. In both cases every name of \<open>dir(backend)\<close> whose first
  token before an underscore is \<open>open\<close> or \<open>get\<close> is bound under that name to
  \<open>getattr(backend, name)\<close>. Whenever a backend was selected, \<open>backend\<close> is bound to it
  when the call ends, also by an exception of \<open>dir\<close> or \<open>getattr\<close>. The module body
  calls \<open>set_backend()\<close> once, so for such a default backend the import succeeds and
  these names are bound in the module's namespace after it.
\<close>

theorem set_backend_installs:
  "(dir_of cls b = Inr names \<and>
    (\<forall>n\<in>set names. is_port_function n \<longrightarrow> (\<exists>v. getattr_of cls b n = Inr v)) \<longrightarrow>
      (\<exists>g. set_backend cls (BackendInst b) load glob = (None, g) \<and>
           set_backend (cls\<lparr>construct := c\<rparr>) (BackendInst b) load glob = (None, g) \<and>
           g ''backend'' = Some (BackendVal b) \<and>
           (\<forall>n\<in>set names. is_port_function n \<longrightarrow>
               (\<exists>v. getattr_of cls b n = Inr v \<and> g n = Some (AttrVal v))))) \<and>
   ((\<forall>b'. name \<noteq> BackendInst b') \<and> construct cls name load True = Inr b1 \<and>
    dir_of cls b1 = Inr names1 \<and>
    (\<forall>n\<in>set names1. is_port_function n \<longrightarrow> (\<exists>v. getattr_of cls b1 n = Inr v)) \<longrightarrow>
      (\<exists>g. set_backend cls name load glob = (None, g) \<and>
           g ''backend'' = Some (BackendVal b1) \<and>
           (\<forall>n\<in>set names1. is_port_function n \<longrightarrow>
               (\<exists>v. getattr_of cls b1 n = Inr v \<and> g n = Some (AttrVal v))))) \<and>
   ((\<forall>b'. name \<noteq> BackendInst b') \<and> construct cls name load True = Inl e \<longrightarrow>
      set_backend cls name load glob = (Some (Raised e), glob)) \<and>
   (select_backend cls name load = Inr b3 \<longrightarrow>
      snd (set_backend cls name load glob) ''backend'' = Some (BackendVal b3)) \<and>
   (construct cls NoneName False True = Inr b2 \<and> dir_of cls b2 = Inr names2 \<and>
    (\<forall>n\<in>set names2. is_port_function n \<longrightarrow> (\<exists>v. getattr_of cls b2 n = Inr v)) \<longrightarrow>
      (\<exists>g. module_body cls g0 = Inr g \<and>
           g ''backend'' = Some (BackendVal b2) \<and>
           (\<forall>n\<in>set names2. is_port_function n \<longrightarrow>
               (\<exists>v. getattr_of cls b2 n = Inr v \<and> g n = Some (AttrVal v)))))"
proof -
  have inst: "\<exists>g. set_backend cls (BackendInst b) load glob = (None, g) \<and>
           set_backend (cls\<lparr>construct := c\<rparr>) (BackendInst b) load glob = (None, g) \<and>
           g ''backend'' = Some (BackendVal b) \<and>
           (\<forall>n\<in>set names. is_port_function n \<longrightarrow>
               (\<exists>v. getattr_of cls b n = Inr v \<and> g n = Some (AttrVal v)))"
    if dir: "dir_of cls b = Inr names"
      and attrs: "\<forall>n\<in>set names. is_port_function n \<longrightarrow> (\<exists>v. getattr_of cls b n = Inr v)"
  proof -
    have "select_backend cls (BackendInst b) load = Inr b"
      by (simp add: select_backend_def)
    from set_backend_succeeds [OF this dir attrs, of glob] show ?thesis
      by (simp add: set_backend_construct)
  qed
  have made: "\<exists>g. set_backend cls name load glob = (None, g) \<and>
           g ''backend'' = Some (BackendVal b1) \<and>
           (\<forall>n\<in>set names1. is_port_function n \<longrightarrow>
               (\<exists>v. getattr_of cls b1 n = Inr v \<and> g n = Some (AttrVal v)))"
    if nb: "\<forall>b'. name \<noteq> BackendInst b'" and con: "construct cls name load True = Inr b1"
      and dir: "dir_of cls b1 = Inr names1"
      and attrs: "\<forall>n\<in>set names1. is_port_function n \<longrightarrow> (\<exists>v. getattr_of cls b1 n = Inr v)"
  proof -
    from nb con have "select_backend cls name load = Inr b1"
      by (cases name) (auto simp: select_backend_def)
    from set_backend_succeeds [OF this dir attrs] show ?thesis .
  qed
  have raised: "set_backend cls name load glob = (Some (Raised e), glob)"
    if "\<forall>b'. name \<noteq> BackendInst b'" and "construct cls name load True = Inl e"
    using that by (cases name) (auto simp: set_backend_def select_backend_def)
  have kept: "snd (set_backend cls name load glob) ''backend'' = Some (BackendVal b3)"
    if "select_backend cls name load = Inr b3"
    using that by (rule set_backend_keeps_backend)
  have imported: "\<exists>g. module_body cls g0 = Inr g \<and>
           g ''backend'' = Some (BackendVal b2) \<and>
           (\<forall>n\<in>set names2. is_port_function n \<longrightarrow>
               (\<exists>v. getattr_of cls b2 n = Inr v \<and> g n = Some (AttrVal v)))"
    if con: "construct cls NoneName False True = Inr b2" and dir: "dir_of cls b2 = Inr names2"
      and attrs: "\<forall>n\<in>set names2. is_port_function n \<longrightarrow> (\<exists>v. getattr_of cls b2 n = Inr v)"
  proof -
    let ?g4 = "fold bind assignments (fold bind import_bindings g0)"
    from con have "select_backend cls NoneName False = Inr b2"
      by (simp add: select_backend_def)
    from set_backend_succeeds [OF this dir attrs, of ?g4] obtain g1 where
      s: "set_backend cls NoneName False ?g4 = (None, g1)" and
      bk: "g1 ''backend'' = Some (BackendVal b2)" and
      bound: "\<forall>n\<in>set names2. is_port_function n \<longrightarrow>
               (\<exists>v. getattr_of cls b2 n = Inr v \<and> g1 n = Some (AttrVal v))"
      by blast
    have keep: "is_port_function n \<Longrightarrow> n \<noteq> ''os'' \<and> n \<noteq> ''absolute_import''" for n
      using not_port_os not_port_absolute_import by blast
    from module_body_Inr [OF s]
    have m: "module_body cls g0 = Inr (g1(''os'' := None, ''absolute_import'' := None))" .
    have "(g1(''os'' := None, ''absolute_import'' := None)) ''backend'' = Some (BackendVal b2)"
      using bk by simp
    moreover have "\<forall>n\<in>set names2. is_port_function n \<longrightarrow>
        (\<exists>v. getattr_of cls b2 n = Inr v \<and>
             (g1(''os'' := None, ''absolute_import'' := None)) n = Some (AttrVal v))"
      using bound keep by auto
    ultimately show ?thesis using m by blast
  qed
  from inst made raised kept imported show ?thesis by blast
qed

text \<open>
  Claim C10 at the sample classes. With the first: the namespace after the import,
  a call with a \<open>Backend\<close> object, a call with a module name, and a call when the
  constructor raises. With the second, where reading \<open>open_input\<close> raises after
  \<open>get_input_names\<close> was bound: what the call leaves behind.
\<close>

theorem set_backend_installs_witness:
  "(\<exists>g. module_body sample_class Map.empty = Inr g \<and>
       g ''backend'' = Some (BackendVal 0) \<and>
       g ''open_input'' = Some (AttrVal ''open_input'') \<and>
       g ''get_input_names'' = Some (AttrVal ''get_input_names'')) \<and>
   (\<exists>g. set_backend sample_class (BackendInst 5) False Map.empty = (None, g) \<and>
       g ''backend'' = Some (BackendVal 5) \<and>
       g ''open_input'' = Some (AttrVal ''open_input'')) \<and>
   (\<exists>g. set_backend sample_class (StrName ''mido.backends.rtmidi'') False Map.empty = (None, g) \<and>
       g ''backend'' = Some (BackendVal 0)) \<and>
   set_backend (sample_class\<lparr>construct := \<lambda>name load use_environ. Inl ()\<rparr>)
       NoneName False Map.empty = (Some (Raised ()), Map.empty) \<and>
   fst (set_backend raising_class NoneName False Map.empty) = Some (Raised ()) \<and>
   snd (set_backend raising_class NoneName False Map.empty) ''backend'' = Some (BackendVal 0) \<and>
   snd (set_backend raising_class NoneName False Map.empty) ''get_input_names'' =
     Some (AttrVal ''get_input_names'') \<and>
   snd (set_backend raising_class NoneName False Map.empty) ''open_input'' = None"
proof -
  let ?names = "[''__init__'', ''_get_devices'', ''get_input_names'', ''load'', ''name'',
      ''open_input'']"
  let ?rt = "StrName ''mido.backends.rtmidi'' :: nat name_arg"
  have c: "construct sample_class NoneName False True = Inr 0"
    and c': "construct sample_class ?rt False True = Inr 0"
    and d: "dir_of sample_class b = Inr ?names"
    and a: "\<forall>n\<in>set ?names. is_port_function n \<longrightarrow> (\<exists>v. getattr_of sample_class b n = Inr v)"
    and v: "getattr_of sample_class b n = Inr w \<Longrightarrow> w = n" for b n w
    by (auto simp: sample_class_def)
  note t = set_backend_installs [where cls = sample_class and b = 5 and names = ?names
      and load = False and glob = Map.empty and c = "construct sample_class" and name = ?rt
      and ?b1.0 = 0 and ?names1.0 = ?names and ?b2.0 = 0 and ?names2.0 = ?names
      and ?g0.0 = Map.empty]
  from t c d a obtain g where h: "module_body sample_class Map.empty = Inr g"
    and b: "g ''backend'' = Some (BackendVal 0)"
    and p: "\<forall>n\<in>set ?names. is_port_function n \<longrightarrow>
               (\<exists>v. getattr_of sample_class 0 n = Inr v \<and> g n = Some (AttrVal v))"
    by blast
  from p have "\<exists>v. getattr_of sample_class 0 ''open_input'' = Inr v \<and>
        g ''open_input'' = Some (AttrVal v)"
      "\<exists>v. getattr_of sample_class 0 ''get_input_names'' = Inr v \<and>
        g ''get_input_names'' = Some (AttrVal v)"
    by (simp_all add: sample_port)
  then have "g ''open_input'' = Some (AttrVal ''open_input'')"
    "g ''get_input_names'' = Some (AttrVal ''get_input_names'')"
    using v by auto
  with h b have 1: "\<exists>g. module_body sample_class Map.empty = Inr g \<and>
       g ''backend'' = Some (BackendVal 0) \<and>
       g ''open_input'' = Some (AttrVal ''open_input'') \<and>
       g ''get_input_names'' = Some (AttrVal ''get_input_names'')"
    by blast
  from t d a obtain g5 where h5: "set_backend sample_class (BackendInst 5) False Map.empty = (None, g5)"
    and b5: "g5 ''backend'' = Some (BackendVal 5)"
    and p5: "\<forall>n\<in>set ?names. is_port_function n \<longrightarrow>
               (\<exists>v. getattr_of sample_class 5 n = Inr v \<and> g5 n = Some (AttrVal v))"
    by blast
  from p5 have "\<exists>v. getattr_of sample_class 5 ''open_input'' = Inr v \<and>
        g5 ''open_input'' = Some (AttrVal v)"
    by (simp add: sample_port)
  then have "g5 ''open_input'' = Some (AttrVal ''open_input'')"
    using v by auto
  with h5 b5 have 2: "\<exists>g. set_backend sample_class (BackendInst 5) False Map.empty = (None, g) \<and>
       g ''backend'' = Some (BackendVal 5) \<and>
       g ''open_input'' = Some (AttrVal ''open_input'')"
    by blast
  have nb: "\<forall>b'. ?rt \<noteq> BackendInst b'"
    by simp
  from t nb c' d a have 3: "\<exists>g. set_backend sample_class ?rt False Map.empty = (None, g) \<and>
       g ''backend'' = Some (BackendVal 0)"
    by blast
  let ?failing = "sample_class\<lparr>construct := \<lambda>name load use_environ. Inl ()\<rparr>"
  note f = set_backend_installs [where cls = ?failing and name = NoneName and load = False
      and glob = Map.empty and e = "()"]
  have "\<forall>b'. (NoneName :: nat name_arg) \<noteq> BackendInst b'"
    and "construct ?failing NoneName False True = Inl ()"
    by simp_all
  with f have 4: "set_backend ?failing NoneName False Map.empty = (Some (Raised ()), Map.empty)"
    by blast
  note r = set_backend_installs [where cls = raising_class and name = NoneName
      and load = False and glob = Map.empty and ?b3.0 = 0]
  have "select_backend raising_class NoneName False = Inr 0"
    by (simp add: select_backend_def raising_class_def)
  with r have 5: "snd (set_backend raising_class NoneName False Map.empty) ''backend'' =
      Some (BackendVal 0)"
    by blast
  have 6: "fst (set_backend raising_class NoneName False Map.empty) = Some (Raised ())"
    "snd (set_backend raising_class NoneName False Map.empty) ''get_input_names'' =
       Some (AttrVal ''get_input_names'')"
    "snd (set_backend raising_class NoneName False Map.empty) ''open_input'' = None"
    by (simp_all add: set_backend_def select_backend_def raising_class_def sample_port)
  from 1 2 3 4 5 6 show ?thesis by blast
qed

section \<open>Properties of the parser\<close>

lemma deliver_keeps:
  "buffer (deliver bs s) = buffer s" "running_status (deliver bs s) = running_status s"
  "sysex (deliver bs s) = sysex s"
  by (simp_all add: deliver_def split: option.splits)

lemma collect_running: "running_status (collect s) = running_status s"
  by (simp add: collect_def deliver_keeps split: list.splits)

lemma channel_status_sets_running:
  assumes "0x80 \<le> b" "b \<le> 0xEF"
  shows "running_status (feed_byte b s) = Some b"
proof -
  from assms have "feed_byte b s = collect ((end_sysex s)\<lparr>buffer := [b], running_status := Some b\<rparr>)"
    by (simp add: feed_byte_def)
  then show ?thesis by (simp add: collect_running)
qed

lemma realtime_step:
  assumes "0xF8 \<le> b" "b \<le> 0xFE"
  shows "feed_byte b s = deliver [b] s"
  using assms by (simp add: feed_byte_def)

lemma realtime_untouched:
  assumes "0xF8 \<le> b" "b \<le> 0xFE"
  shows "buffer (feed_byte b s) = buffer s \<and> running_status (feed_byte b s) = running_status s \<and>
     sysex (feed_byte b s) = sysex s \<and>
     queue (feed_byte b s) = (case decode_from [b] of None \<Rightarrow> queue s | Some m \<Rightarrow> queue s @ [m])"
  by (simp add: realtime_step [OF assms] deliver_keeps) (simp add: deliver_def split: option.splits)

lemma note_on_under_running_status:
  assumes "n < 128" "v < 128" "sysex s = None" "buffer s = []" "running_status s = Some 0x90"
  shows "queue (feed [n, v] s) = queue s @ [NoteOn 0 n v]"
proof -
  let ?s1 = "s\<lparr>buffer := [0x90, n]\<rparr>"
  have "feed_byte n s = collect ?s1"
    using assms by (simp add: feed_byte_def)
  also have "\<dots> = ?s1"
    by (simp add: collect_def data_length_def)
  finally have 1: "feed_byte n s = ?s1" .
  have "feed_byte v ?s1 = collect (?s1\<lparr>buffer := [0x90, n, v]\<rparr>)"
    using assms by (simp add: feed_byte_def)
  also have "\<dots> = deliver [0x90, n, v] (?s1\<lparr>buffer := []\<rparr>)"
    by (simp add: collect_def data_length_def)
  finally have 2: "feed_byte v ?s1 = deliver [0x90, n, v] (?s1\<lparr>buffer := []\<rparr>)" .
  show ?thesis
    by (simp add: feed_def 1 2 deliver_def)
qed

text \<open>
  Claim C2. The five bytes \<open>0x90, 60, 64, 61, 100\<close> give exactly two \<open>note_on\<close>
  messages on channel 0, with notes 60 and 61. The reason holds in general: every
  channel status byte sets the running status to itself, and with the running status
  \<open>0x90\<close>, no pending message and no sysex in progress, two data bytes make one more
  \<open>note_on\<close> on channel 0.
\<close>

theorem running_status_note_on:
  "parse_all [0x90, 60, 64, 61, 100] = [NoteOn 0 60 64, NoteOn 0 61 100] \<and>
   (\<forall>s b. 0x80 \<le> b \<and> b \<le> 0xEF \<longrightarrow> running_status (feed_byte b s) = Some b) \<and>
   (\<forall>s n v. n < 128 \<and> v < 128 \<and> sysex s = None \<and> buffer s = [] \<and>
        running_status s = Some 0x90 \<longrightarrow>
        queue (feed [n, v] s) = queue s @ [NoteOn 0 n v])"
proof -
  have "parse_all [0x90, 60, 64, 61, 100] = [NoteOn 0 60 64, NoteOn 0 61 100]"
    by code_simp
  moreover have "\<forall>s b. 0x80 \<le> b \<and> b \<le> 0xEF \<longrightarrow> running_status (feed_byte b s) = Some b"
    using channel_status_sets_running by blast
  moreover have "\<forall>s n v. n < 128 \<and> v < 128 \<and> sysex s = None \<and> buffer s = [] \<and>
        running_status s = Some 0x90 \<longrightarrow>
        queue (feed [n, v] s) = queue s @ [NoteOn 0 n v]"
    using note_on_under_running_status by blast
  ultimately show ?thesis by blast
qed

text \<open>
  Claim C2 at the input of the claim: the status byte sets the running status, and
  the second pair of data bytes, fed after the first message, completes the queue.
\<close>

theorem running_status_note_on_witness:
  "running_status (feed_byte 0x90 new_parser) = Some 0x90 \<and>
   queue (feed [61, 100] (feed [0x90, 60, 64] new_parser)) = [NoteOn 0 60 64, NoteOn 0 61 100]"
proof -
  let ?s = "feed [0x90, 60, 64] new_parser"
  have s: "sysex ?s = None" "buffer ?s = []" "running_status ?s = Some 0x90"
    "queue ?s = [NoteOn 0 60 64]"
    by code_simp+
  from running_status_note_on have
    r: "(0x80::nat) \<le> 0x90 \<and> (0x90::nat) \<le> 0xEF \<longrightarrow>
          running_status (feed_byte 0x90 new_parser) = Some 0x90" and
    q: "(61::nat) < 128 \<and> (100::nat) < 128 \<and> sysex ?s = None \<and> buffer ?s = [] \<and>
          running_status ?s = Some 0x90 \<longrightarrow>
          queue (feed [61, 100] ?s) = queue ?s @ [NoteOn 0 61 100]"
    by blast+
  from r have "running_status (feed_byte 0x90 new_parser) = Some 0x90" by simp
  moreover from q s have "queue (feed [61, 100] ?s) = [NoteOn 0 60 64, NoteOn 0 61 100]"
    by simp
  ultimately show ?thesis by blast
qed

text \<open>
  Claim C3. The bytes \<open>0xF0, 1, 2, 0xF8, 3, 0xF7\<close> give a \<open>clock\<close> message and a sysex
  message with the data 1, 2, 3. In any state a real-time byte \<open>0xF8\<close> to \<open>0xFE\<close> leaves
  the pending buffer, the running status and the sysex accumulation as they were, and
  a real-time byte that is a message (\<open>0xF8\<close> is \<open>clock\<close>) is appended to the queue in
  the same step.
\<close>

theorem realtime_inside_sysex:
  "parse_all [0xF0, 1, 2, 0xF8, 3, 0xF7] = [Clock, Sysex [1, 2, 3]] \<and>
   (\<forall>s b. 0xF8 \<le> b \<and> b \<le> 0xFE \<longrightarrow>
      buffer (feed_byte b s) = buffer s \<and>
      running_status (feed_byte b s) = running_status s \<and>
      sysex (feed_byte b s) = sysex s) \<and>
   (\<forall>s b m. 0xF8 \<le> b \<and> b \<le> 0xFE \<and> decode_from [b] = Some m \<longrightarrow>
      queue (feed_byte b s) = queue s @ [m]) \<and>
   decode_from [0xF8] = Some Clock"
proof -
  have "parse_all [0xF0, 1, 2, 0xF8, 3, 0xF7] = [Clock, Sysex [1, 2, 3]]"
    by code_simp
  moreover have "\<forall>s b. 0xF8 \<le> b \<and> b \<le> 0xFE \<longrightarrow>
      buffer (feed_byte b s) = buffer s \<and>
      running_status (feed_byte b s) = running_status s \<and>
      sysex (feed_byte b s) = sysex s"
    using realtime_untouched by blast
  moreover have "\<forall>s b m. 0xF8 \<le> b \<and> b \<le> 0xFE \<and> decode_from [b] = Some m \<longrightarrow>
      queue (feed_byte b s) = queue s @ [m]"
    using realtime_untouched by fastforce
  moreover have "decode_from [0xF8] = Some Clock"
    by simp
  ultimately show ?thesis by blast
qed

text \<open>
  Claim C3 inside the sysex of the claim: after \<open>0xF0, 1, 2\<close> the accumulation holds
  1, 2; the clock byte leaves it so and is emitted at once.
\<close>

theorem realtime_inside_sysex_witness:
  "sysex (feed [0xF0, 1, 2] new_parser) = Some [1, 2] \<and>
   sysex (feed_byte 0xF8 (feed [0xF0, 1, 2] new_parser)) = Some [1, 2] \<and>
   queue (feed_byte 0xF8 (feed [0xF0, 1, 2] new_parser)) = [Clock]"
proof -
  let ?s = "feed [0xF0, 1, 2] new_parser"
  have s: "sysex ?s = Some [1, 2]" "queue ?s = []"
    by code_simp+
  from realtime_inside_sysex have
    u: "(0xF8::nat) \<le> 0xF8 \<and> (0xF8::nat) \<le> 0xFE \<longrightarrow> sysex (feed_byte 0xF8 ?s) = sysex ?s" and
    q: "(0xF8::nat) \<le> 0xF8 \<and> (0xF8::nat) \<le> 0xFE \<and> decode_from [0xF8] = Some Clock \<longrightarrow>
          queue (feed_byte 0xF8 ?s) = queue ?s @ [Clock]"
    by blast+
  from u s have "sysex (feed_byte 0xF8 ?s) = Some [1, 2]" by simp
  moreover from q s have "queue (feed_byte 0xF8 ?s) = [Clock]" by simp
  ultimately show ?thesis using s by blast
qed

section \<open>Properties of the variable-length quantities\<close>

lemma continuation_length: "1 \<le> length (continuation n)"
  by (induction n rule: continuation.induct) (subst continuation.simps, simp)

lemma read_continuation:
  "seen + length (continuation m) \<le> 4 \<Longrightarrow>
   read_vlq acc seen (continuation m @ tail) =
     read_vlq (acc * 128 ^ length (continuation m) + m) (seen + length (continuation m)) tail"
proof (induction m arbitrary: tail rule: continuation.induct)
  case (1 n)
  show ?case
  proof (cases "n < 128")
    case True
    then have c: "continuation n = [n + 128]" by (subst continuation.simps) simp
    from "1.prems" have "seen < 4" by (simp add: c)
    then show ?thesis using True by (simp add: c)
  next
    case False
    let ?k = "length (continuation (n div 128))"
    from False have c: "continuation n = continuation (n div 128) @ [n mod 128 + 128]"
      by (subst continuation.simps) simp
    from "1.prems" have len: "seen + ?k < 4" by (simp add: c)
    then have "seen + ?k \<le> 4" by simp
    from "1.IH" [OF False this, of "(n mod 128 + 128) # tail"]
    have "read_vlq acc seen (continuation n @ tail) =
        read_vlq (acc * 128 ^ ?k + n div 128) (seen + ?k) ((n mod 128 + 128) # tail)"
      by (simp add: c)
    also have "\<dots> = read_vlq ((acc * 128 ^ ?k + n div 128) * 128 + n mod 128) (Suc (seen + ?k)) tail"
      using len by simp
    also have "(acc * 128 ^ ?k + n div 128) * 128 + n mod 128 = acc * 128 ^ Suc ?k + n"
      by (simp add: algebra_simps)
    finally show ?thesis by (simp add: c)
  qed
qed

lemma continuation_bounds:
  "n < 128 ^ length (continuation n) \<and>
   (1 < length (continuation n) \<longrightarrow> 128 ^ (length (continuation n) - 1) \<le> n)"
proof (induction n rule: continuation.induct)
  case (1 n)
  show ?case
  proof (cases "n < 128")
    case True
    then have c: "continuation n = [n + 128]" by (subst continuation.simps) simp
    show ?thesis using True by (simp add: c)
  next
    case False
    let ?k = "length (continuation (n div 128))"
    from False have c: "length (continuation n) = Suc ?k"
      by (subst continuation.simps) simp
    from "1.IH" [OF False] have up: "n div 128 < 128 ^ ?k"
      and lo: "1 < ?k \<longrightarrow> 128 ^ (?k - 1) \<le> n div 128" by simp_all
    have k1: "1 \<le> ?k" by (rule continuation_length)
    from up have "n < 128 ^ Suc ?k" by simp
    moreover have "(128::nat) ^ ?k \<le> n"
    proof (cases "1 < ?k")
      case True
      with lo have "128 ^ (?k - 1) \<le> n div 128" by simp
      then have "128 ^ (?k - 1) * 128 \<le> n" by simp
      moreover have "(128::nat) ^ (?k - 1) * 128 = 128 ^ ?k"
        using k1 by (cases ?k) simp_all
      ultimately show ?thesis by simp
    next
      case False
      with k1 have "?k = 1" by simp
      with \<open>\<not> n < 128\<close> show ?thesis by simp
    qed
    ultimately show ?thesis by (simp add: c)
  qed
qed

lemma encode_vlq_length:
  "length (encode_vlq n) = (if n < 128 then 1 else Suc (length (continuation (n div 128))))"
  by (simp add: encode_vlq_def)

lemma encode_vlq_bounds:
  "n < 128 ^ length (encode_vlq n) \<and>
   (1 < length (encode_vlq n) \<longrightarrow> 128 ^ (length (encode_vlq n) - 1) \<le> n)"
proof (cases "n < 128")
  case True
  then show ?thesis by (simp add: encode_vlq_length)
next
  case False
  let ?k = "length (continuation (n div 128))"
  from continuation_bounds [of "n div 128"] have up: "n div 128 < 128 ^ ?k"
    and lo: "1 < ?k \<longrightarrow> 128 ^ (?k - 1) \<le> n div 128" by simp_all
  have k1: "1 \<le> ?k" by (rule continuation_length)
  from up have "n < 128 ^ Suc ?k" by simp
  moreover have "(128::nat) ^ ?k \<le> n"
  proof (cases "1 < ?k")
    case True
    with lo have "128 ^ (?k - 1) \<le> n div 128" by simp
    then have "128 ^ (?k - 1) * 128 \<le> n" by simp
    moreover have "(128::nat) ^ (?k - 1) * 128 = 128 ^ ?k"
      using k1 by (cases ?k) simp_all
    ultimately show ?thesis by simp
  next
    case False
    with k1 have "?k = 1" by simp
    with \<open>\<not> n < 128\<close> show ?thesis by simp
  qed
  ultimately show ?thesis using False by (simp add: encode_vlq_length)
qed

lemma encode_vlq_28: assumes "n < 2 ^ 28" shows "length (encode_vlq n) \<le> 4"
proof (rule ccontr)
  assume "\<not> length (encode_vlq n) \<le> 4"
  then have 5: "4 \<le> length (encode_vlq n) - 1" and 1: "1 < length (encode_vlq n)" by simp_all
  from encode_vlq_bounds [of n] 1 have "128 ^ (length (encode_vlq n) - 1) \<le> n" by simp
  moreover have "(128::nat) ^ 4 \<le> 128 ^ (length (encode_vlq n) - 1)"
    using 5 by (intro power_increasing) simp_all
  ultimately have "(128::nat) ^ 4 \<le> n" by simp
  with assms show False by simp
qed

lemma decode_encode_vlq:
  assumes "length (encode_vlq n) \<le> 5"
  shows "decode_vlq (encode_vlq n @ rest) = Inr (n, rest)"
proof (cases "n < 128")
  case True
  then show ?thesis by (simp add: decode_vlq_def encode_vlq_def)
next
  case False
  let ?k = "length (continuation (n div 128))"
  have "n mod 128 < 128" by (rule mod_less_divisor) simp
  then have low: "\<not> 128 \<le> n mod 128" by (simp only: not_le)
  from assms False have "0 + ?k \<le> 4" by (simp add: encode_vlq_length)
  from read_continuation [where seen = 0 and acc = 0 and m = "n div 128"
      and tail = "(n mod 128) # rest", OF this]
  have "read_vlq 0 0 (continuation (n div 128) @ (n mod 128) # rest) =
      read_vlq (n div 128) ?k ((n mod 128) # rest)"
    by simp
  also have "\<dots> = Inr (n div 128 * 128 + n mod 128, rest)"
    using low by simp
  also have "n div 128 * 128 + n mod 128 = n"
    by simp
  finally have r: "read_vlq 0 0 (continuation (n div 128) @ (n mod 128) # rest) = Inr (n, rest)" .
  have e: "encode_vlq n @ rest = continuation (n div 128) @ (n mod 128) # rest"
    using False by (simp add: encode_vlq_def)
  show ?thesis unfolding decode_vlq_def e by (rule r)
qed

lemma read_vlq_too_long:
  "\<forall>b\<in>set bs. 128 \<le> b \<Longrightarrow> 5 \<le> seen + length bs \<Longrightarrow> seen \<le> 4 \<Longrightarrow>
   read_vlq acc seen (bs @ rest) = Inl TooLong"
  by (induction bs arbitrary: acc seen) auto

lemma read_vlq_bound:
  "read_vlq acc seen bs = Inr (v, rest) \<Longrightarrow>
   v < (acc + 1) * 128 ^ (length bs - length rest) \<and> length rest < length bs"
proof (induction bs arbitrary: acc seen)
  case Nil
  then show ?case by simp
next
  case (Cons b bs)
  show ?case
  proof (cases "128 \<le> b")
    case True
    with Cons.prems have r: "read_vlq (acc * 128 + b mod 128) (Suc seen) bs = Inr (v, rest)"
      by (simp split: if_splits)
    from Cons.IH [OF r] have v: "v < (acc * 128 + b mod 128 + 1) * 128 ^ (length bs - length rest)"
      and l: "length rest < length bs" by simp_all
    have "acc * 128 + b mod 128 + 1 \<le> (acc + 1) * 128" by simp
    then have "(acc * 128 + b mod 128 + 1) * 128 ^ (length bs - length rest)
        \<le> (acc + 1) * 128 * 128 ^ (length bs - length rest)"
      by (rule mult_le_mono1)
    with v have "v < (acc + 1) * 128 * 128 ^ (length bs - length rest)" by simp
    moreover from l have "Suc (length bs) - length rest = Suc (length bs - length rest)" by simp
    ultimately show ?thesis using l by (simp add: algebra_simps)
  next
    case False
    with Cons.prems show ?thesis by auto
  qed
qed

lemma encode_vlq_minimal:
  assumes "decode_vlq bs = Inr (n, [])"
  shows "length (encode_vlq n) \<le> length bs"
proof -
  from read_vlq_bound [of 0 0 bs n "[]"] assms
  have n: "n < 128 ^ length bs" and l: "0 < length bs" by (simp_all add: decode_vlq_def)
  show ?thesis
  proof (cases "1 < length (encode_vlq n)")
    case True
    with encode_vlq_bounds [of n] have "128 ^ (length (encode_vlq n) - 1) \<le> n" by simp
    from this n have "(128::nat) ^ (length (encode_vlq n) - 1) < 128 ^ length bs"
      by (rule le_less_trans)
    then have "length (encode_vlq n) - 1 < length bs" by simp
    then show ?thesis by simp
  next
    case False
    with l show ?thesis by linarith
  qed
qed

text \<open>
  Claim C5. Each of the tick counts 0, 127, 128, 16383, 16384 and 2097151 is decoded
  from its encoding. The encoder emits at least one byte and no more bytes than any
  byte sequence that decodes to the same value; a value below \<open>2 ^ 28\<close> takes at most
  four bytes and is decoded from its encoding. The decoder fails on five or more
  continuation bytes in a row, whatever follows them.
\<close>

theorem vlq_round_trip:
  "(\<forall>n\<in>set [0, 127, 128, 16383, 16384, 2097151]. decode_vlq (encode_vlq n) = Inr (n, [])) \<and>
   (\<forall>n. 1 \<le> length (encode_vlq n)) \<and>
   (\<forall>n bs. decode_vlq bs = Inr (n, []) \<longrightarrow> length (encode_vlq n) \<le> length bs) \<and>
   (\<forall>n. n < 2 ^ 28 \<longrightarrow>
      length (encode_vlq n) \<le> 4 \<and> decode_vlq (encode_vlq n) = Inr (n, [])) \<and>
   (\<forall>bs rest. 5 \<le> length bs \<and> (\<forall>b\<in>set bs. 128 \<le> b) \<longrightarrow>
      decode_vlq (bs @ rest) = Inl TooLong)"
proof -
  have small: "length (encode_vlq n) \<le> 4 \<and> decode_vlq (encode_vlq n) = Inr (n, [])"
    if "n < 2 ^ 28" for n
  proof -
    from that have l: "length (encode_vlq n) \<le> 4" by (rule encode_vlq_28)
    then have "length (encode_vlq n) \<le> 5" by simp
    from decode_encode_vlq [OF this, of "[]"] l show ?thesis by simp
  qed
  have six: "\<forall>n\<in>set [0, 127, 128, 16383, 16384, 2097151]. decode_vlq (encode_vlq n) = Inr (n, [])"
    using small by simp
  have least: "\<forall>n. 1 \<le> length (encode_vlq n)"
    by (simp add: encode_vlq_length)
  have minimal: "\<forall>n bs. decode_vlq bs = Inr (n, []) \<longrightarrow> length (encode_vlq n) \<le> length bs"
    using encode_vlq_minimal by blast
  have long: "\<forall>bs rest. 5 \<le> length bs \<and> (\<forall>b\<in>set bs. 128 \<le> b) \<longrightarrow>
      decode_vlq (bs @ rest) = Inl TooLong"
    using read_vlq_too_long [where seen = 0 and acc = 0] by (simp add: decode_vlq_def)
  from six least minimal small long show ?thesis by blast
qed

text \<open>
  Claim C5 at concrete inputs: the largest listed tick count, the largest 28-bit
  value, a two-byte sequence that decodes to 128, and five continuation bytes.
\<close>

theorem vlq_round_trip_witness:
  "decode_vlq (encode_vlq 2097151) = Inr (2097151, []) \<and>
   encode_vlq 2097151 = [0xFF, 0xFF, 0x7F] \<and>
   length (encode_vlq 268435455) \<le> 4 \<and>
   length (encode_vlq 128) \<le> length [0x81, 0x00 :: nat] \<and>
   decode_vlq [0x81, 0x80, 0x80, 0x80, 0x80, 0x00] = Inl TooLong"
proof -
  note t = vlq_round_trip
  note six = t [THEN conjunct1]
  note minimal = t [THEN conjunct2, THEN conjunct2, THEN conjunct1]
  note small = t [THEN conjunct2, THEN conjunct2, THEN conjunct2, THEN conjunct1]
  note long = t [THEN conjunct2, THEN conjunct2, THEN conjunct2, THEN conjunct2]
  from six have a: "decode_vlq (encode_vlq 2097151) = Inr (2097151, [])"
    by simp
  have b: "encode_vlq 2097151 = [0xFF, 0xFF, 0x7F]"
    by (simp add: encode_vlq_def continuation.simps)
  have "(268435455::nat) < 2 ^ 28"
    by simp
  with small [rule_format, of 268435455] have c: "length (encode_vlq 268435455) \<le> 4"
    by blast
  have d0: "decode_vlq [0x81, 0x00] = Inr (128, [])"
    by (simp add: decode_vlq_def)
  from minimal [rule_format, OF d0] have d: "length (encode_vlq 128) \<le> length [0x81, 0x00 :: nat]" .
  have "5 \<le> length [0x81, 0x80, 0x80, 0x80, 0x80 :: nat] \<and>
      (\<forall>b\<in>set [0x81, 0x80, 0x80, 0x80, 0x80 :: nat]. 128 \<le> b)"
    by simp
  from long [rule_format, OF this, of "[0x00]"]
  have e: "decode_vlq [0x81, 0x80, 0x80, 0x80, 0x80, 0x00] = Inl TooLong"
    by simp
  from a b c d e show ?thesis by blast
qed

end
